theory Spec2Isabelle
  imports Complex_Main "HOL-Library.Sublist"
begin

section \<open>The redshift control panel: debounce, apply and reset\<close>

text \<open>
  The program is a window with three sliders. A slider change schedules, after a
  debounce delay, a run of the external tool \<open>redshift\<close>; a button runs the tool's reset
  mode and puts the sliders back to their defaults. This theory embeds \<open>main.go\<close>:
  the constants, the \<open>uiState\<close> struct, \<open>scheduleApply\<close>, \<open>apply\<close>, \<open>reset\<close>, the
  change handler \<open>onChange\<close> and the start-up check of \<open>main\<close>.

  A Go \<open>string\<close> is a sequence of bytes: it is a \<open>string\<close> here. A \<open>float64\<close> slider
  value is modelled by the real number it denotes; the program only stores, copies,
  truncates and prints these values. A Go \<open>error\<close> is \<open>None\<close> for \<open>nil\<close> and
  \<open>Some d\<close> for an error whose \<open>Error()\<close> text is \<open>d\<close>.
\<close>

subsection \<open>Constants\<close>

text \<open>A \<open>time.Duration\<close> counts nanoseconds.\<close>

definition millisecond :: nat where
  "millisecond = 1000000"

definition second :: nat where
  "second = 1000 * millisecond"

definition debounce :: nat where
  "debounce = 250 * millisecond"

definition timeout :: nat where
  "timeout = 3 * second"

subsection \<open>Library functions the program calls\<close>

text \<open>
  \<open>strings.TrimSpace\<close> removes the leading and the trailing runes that have the Unicode
  White_Space property. On the bytes of the string that is: as long as the string starts
  (then: ends) with the UTF-8 encoding of such a rune, remove that encoding. The runes are
  U+0009 to U+000D, U+0020, U+0085, U+00A0, U+1680, U+2000 to U+200A, U+2028, U+2029,
  U+202F, U+205F and U+3000.
\<close>

definition space_encodings :: "string list" where
  "space_encodings =
     map (\<lambda>c. [c]) [CHR 0x09, CHR 0x0A, CHR 0x0B, CHR 0x0C, CHR 0x0D, CHR 0x20]
     @ [[CHR 0xC2, CHR 0x85], [CHR 0xC2, CHR 0xA0], [CHR 0xE1, CHR 0x9A, CHR 0x80]]
     @ map (\<lambda>c. [CHR 0xE2, CHR 0x80, c])
         [CHR 0x80, CHR 0x81, CHR 0x82, CHR 0x83, CHR 0x84, CHR 0x85, CHR 0x86, CHR 0x87,
          CHR 0x88, CHR 0x89, CHR 0x8A, CHR 0xA8, CHR 0xA9, CHR 0xAF]
     @ [[CHR 0xE2, CHR 0x81, CHR 0x9F], [CHR 0xE3, CHR 0x80, CHR 0x80]]"

fun strip_prefixes :: "string list \<Rightarrow> string \<Rightarrow> string" where
  "strip_prefixes encs [] = []"
| "strip_prefixes encs (c # s) =
     (case find (\<lambda>e. prefix e (c # s)) encs of
        None \<Rightarrow> c # s
      | Some e \<Rightarrow> strip_prefixes encs (drop (length e - 1) s))"

definition TrimSpace :: "string \<Rightarrow> string" where
  "TrimSpace s =
     rev (strip_prefixes (map rev space_encodings)
            (rev (strip_prefixes space_encodings s)))"

text \<open>
  \<open>fmt.Sprintf\<close>, for the two verbs the program uses. \<open>%d\<close> with an \<open>int\<close> operand
  prints its decimal digits, with a minus sign when negative. \<open>%.2f\<close> with a \<open>float64\<close>
  operand prints the sign, the integer part, a point and two decimals: the exact value of
  the operand is rounded to the nearest multiple of one hundredth, a value exactly halfway
  to the even one. (A real number has no negative zero, the one \<open>float64\<close> whose sign the
  model cannot print; no slider delivers it.) Every other byte of the format is copied (the
  program's formats hold no other verb, and each verb has its operand).
\<close>

fun fmt_nat :: "nat \<Rightarrow> string" where
  "fmt_nat n =
     (if n < 10 then [''0123456789'' ! n]
      else fmt_nat (n div 10) @ [''0123456789'' ! (n mod 10)])"

declare fmt_nat.simps [simp del]

definition fmt_d :: "int \<Rightarrow> string" where
  "fmt_d i = (if i < 0 then CHR ''-'' # fmt_nat (nat (- i)) else fmt_nat (nat i))"

definition round_half_even :: "real \<Rightarrow> nat" where
  "round_half_even y =
     (let f = nat \<lfloor>y\<rfloor>; d = y - real f
      in if d < 1 / 2 then f
         else if 1 / 2 < d then f + 1
         else if even f then f else f + 1)"

definition fmt_2f :: "real \<Rightarrow> string" where
  "fmt_2f x =
     (let n = round_half_even (\<bar>x\<bar> * 100)
      in (if x < 0 then ''-'' else [])
         @ fmt_nat (n div 100) @ ''.''
         @ [''0123456789'' ! (n mod 100 div 10), ''0123456789'' ! (n mod 10)])"

datatype operand = IntArg int | FloatArg real

fun Sprintf :: "string \<Rightarrow> operand list \<Rightarrow> string" where
  "Sprintf [] args = []"
| "Sprintf (c # fs) args =
     (if c = CHR ''%'' \<and> take 1 fs = ''d'' then
        (case args of
           IntArg i # rest \<Rightarrow> fmt_d i @ Sprintf (drop 1 fs) rest
         | _ \<Rightarrow> c # Sprintf fs args)
      else if c = CHR ''%'' \<and> take 3 fs = ''.2f'' then
        (case args of
           FloatArg x # rest \<Rightarrow> fmt_2f x @ Sprintf (drop 3 fs) rest
         | _ \<Rightarrow> c # Sprintf fs args)
      else c # Sprintf fs args)"

text \<open>
  Reading decimal numerals back, to say what the two verbs print: a string of digits, an
  integer with an optional minus sign, and a number with an optional minus sign, an
  integer part, a point and decimals.
\<close>

definition is_digit :: "char \<Rightarrow> bool" where
  "is_digit c = (c \<in> set ''0123456789'')"

definition digit_value :: "char \<Rightarrow> nat" where
  "digit_value c = of_char c - 48"

definition read_nat :: "string \<Rightarrow> nat" where
  "read_nat s = fold (\<lambda>c a. 10 * a + digit_value c) s 0"

definition negative :: "string \<Rightarrow> bool" where
  "negative s = (case s of [] \<Rightarrow> False | c # r \<Rightarrow> c = CHR ''-'')"

definition unsigned :: "string \<Rightarrow> string" where
  "unsigned s = (if negative s then tl s else s)"

definition read_int :: "string \<Rightarrow> int" where
  "read_int s = (if negative s then - int (read_nat (unsigned s)) else int (read_nat s))"

definition is_decimal_int :: "string \<Rightarrow> bool" where
  "is_decimal_int s = (unsigned s \<noteq> [] \<and> list_all is_digit (unsigned s))"

definition int_part :: "string \<Rightarrow> string" where
  "int_part s = takeWhile (\<lambda>c. c \<noteq> CHR ''.'') (unsigned s)"

definition decimals :: "string \<Rightarrow> string" where
  "decimals s = drop 1 (dropWhile (\<lambda>c. c \<noteq> CHR ''.'') (unsigned s))"

definition read_decimal :: "string \<Rightarrow> real" where
  "read_decimal s =
     (let v = real (read_nat (int_part s))
              + real (read_nat (decimals s)) / 10 ^ length (decimals s)
      in if negative s then - v else v)"

definition has_two_decimals :: "string \<Rightarrow> bool" where
  "has_two_decimals s =
     (int_part s \<noteq> [] \<and> list_all is_digit (int_part s)
      \<and> unsigned s = int_part s @ ''.'' @ decimals s
      \<and> length (decimals s) = 2 \<and> list_all is_digit (decimals s))"

text \<open>The conversion \<open>int(x)\<close> of a \<open>float64\<close> drops the fraction.\<close>

definition go_int :: "real \<Rightarrow> int" where
  "go_int x = (if 0 \<le> x then \<lfloor>x\<rfloor> else \<lceil>x\<rceil>)"

subsection \<open>The classification of an outcome\<close>

text \<open>What \<open>ctx.Err()\<close> returns: \<open>nil\<close>, \<open>context.Canceled\<close> or
  \<open>context.DeadlineExceeded\<close>.\<close>

datatype ctx_err = NoErr | Canceled | DeadlineExceeded

text \<open>
  The message \<open>apply\<close> computes from the combined output \<open>outBytes\<close>, the error \<open>err\<close> of
  \<open>cmd.CombinedOutput()\<close> and \<open>ctx.Err()\<close>.
\<close>

definition apply_msg :: "string \<Rightarrow> string option \<Rightarrow> ctx_err \<Rightarrow> string" where
  "apply_msg outBytes err cerr =
     (let msg = TrimSpace outBytes in
      if cerr = DeadlineExceeded then ''Timed out applying settings.''
      else if err \<noteq> None \<and> msg = [] then ''redshift error: '' @ the err
      else if err \<noteq> None then ''redshift error: '' @ msg
      else if msg = [] then ''Applied.''
      else msg)"

text \<open>The message \<open>reset\<close> computes; it does not look at \<open>ctx.Err()\<close>.\<close>

definition reset_msg :: "string \<Rightarrow> string option \<Rightarrow> string" where
  "reset_msg outBytes err =
     (let msg = TrimSpace outBytes in
      if err \<noteq> None \<and> msg = [] then ''reset error: '' @ the err
      else if err \<noteq> None then ''reset error: '' @ msg
      else ''Reset to defaults.'')"

subsection \<open>The command lines\<close>

definition apply_args :: "int \<Rightarrow> real \<Rightarrow> real \<Rightarrow> string list" where
  "apply_args t b g =
     [''-m'', ''randr'',
      ''-P'',
      ''-O'', Sprintf ''%d'' [IntArg t],
      ''-g'', Sprintf ''%.2f:%.2f:%.2f'' [FloatArg g, FloatArg g, FloatArg g],
      ''-b'', Sprintf ''%.2f'' [FloatArg b]]"

text \<open>The goroutine an invocation belongs to, with the values it captured.\<close>

datatype command = ApplyCmd int real real | ResetCmd

text \<open>\<open>exec.CommandContext(ctx, "redshift", ...)\<close>: the name and the arguments.\<close>

fun command_line :: "command \<Rightarrow> string \<times> string list" where
  "command_line (ApplyCmd t b g) = (''redshift'', apply_args t b g)"
| "command_line ResetCmd = (''redshift'', [''-x''])"

text \<open>
  The spec's template of the apply invocation,
  \<open><tool> -m randr -P -O <temperature:int> -g <gamma:.2f>:<gamma:.2f>:<gamma:.2f> -b <brightness:.2f>\<close>,
  as one line of words separated by single blanks.
\<close>

definition spec_apply_line :: "string \<Rightarrow> int \<Rightarrow> real \<Rightarrow> real \<Rightarrow> string" where
  "spec_apply_line tool t b g =
     tool @ '' -m randr -P -O '' @ fmt_d t
          @ '' -g '' @ fmt_2f g @ '':'' @ fmt_2f g @ '':'' @ fmt_2f g
          @ '' -b '' @ fmt_2f b"

fun unwords :: "string list \<Rightarrow> string" where
  "unwords [] = []"
| "unwords [w] = w"
| "unwords (w # ws) = w @ '' '' @ unwords ws"

subsection \<open>The state\<close>

text \<open>
  An invocation of the external tool: the goroutine that runs it, the time it started,
  the state of its context, and whether \<open>cmd.CombinedOutput()\<close> has yet to return.
\<close>

record invocation =
  kind :: command
  started :: nat
  ctxErr :: ctx_err
  running :: bool

text \<open>
  A timer made by \<open>time.AfterFunc\<close>: the time it fires, the values its function
  captured, and whether it is still pending (neither fired nor stopped).
\<close>

record delay_timer =
  fireAt :: nat
  captured :: "int \<times> real \<times> real"
  active :: bool

text \<open>
  The struct \<open>uiState\<close>. A slider is its current value, the label \<open>out\<close> is its text.
  The field \<open>timer\<close> points to a timer and \<open>cancel\<close> is the \<open>CancelFunc\<close> of an
  invocation's context: both are indices into the lists of the \<open>world\<close> below, \<open>None\<close> is
  \<open>nil\<close>.
\<close>

record uiState =
  tempK :: real
  brightness :: real
  gamma :: real
  out :: string
  timer :: "nat option"
  cancel :: "nat option"
  silence :: bool

record world =
  now :: nat
  ui :: uiState
  timers :: "delay_timer list"
  procs :: "invocation list"

datatype slider = STemp | SBrightness | SGamma

fun get_value :: "slider \<Rightarrow> uiState \<Rightarrow> real" where
  "get_value STemp s = tempK s"
| "get_value SBrightness s = brightness s"
| "get_value SGamma s = gamma s"

fun set_value :: "slider \<Rightarrow> real \<Rightarrow> uiState \<Rightarrow> uiState" where
  "set_value STemp v s = s\<lparr>tempK := v\<rparr>"
| "set_value SBrightness v s = s\<lparr>brightness := v\<rparr>"
| "set_value SGamma v s = s\<lparr>gamma := v\<rparr>"

subsection \<open>Start-up\<close>

text \<open>
  \<open>main\<close> up to \<open>w.ShowAndRun()\<close>: the label reads \<open>Ready.\<close>, the sliders hold their
  initial values, and \<open>exec.LookPath("redshift")\<close> is asked whether the tool resolves on
  the search path; \<open>resolves\<close> is the answer of the environment for a name.
\<close>

definition not_found_msg :: string where
  "not_found_msg =
     ''Error: 'redshift' not found in PATH. Install it (e.g., sudo apt install redshift).''"

definition main_init :: "(string \<Rightarrow> bool) \<Rightarrow> world" where
  "main_init resolves =
     \<lparr>now = 0,
      ui = \<lparr>tempK = 6500, brightness = 1, gamma = 1,
            out = (if resolves ''redshift'' then ''Ready.'' else not_found_msg),
            timer = None, cancel = None, silence = False\<rparr>,
      timers = [],
      procs = []\<rparr>"

subsection \<open>scheduleApply and the change handler\<close>

text \<open>Calling a \<open>CancelFunc\<close>: the context is cancelled unless it is done already.\<close>

definition cancel_ctx :: "nat \<Rightarrow> invocation list \<Rightarrow> invocation list" where
  "cancel_ctx i ps =
     (if i < length ps \<and> ctxErr (ps ! i) = NoErr
      then ps[i := (ps ! i)\<lparr>ctxErr := Canceled\<rparr>] else ps)"

text \<open>\<open>Timer.Stop\<close>: a pending timer will not fire; otherwise nothing happens.\<close>

definition stop_timer :: "nat \<Rightarrow> delay_timer list \<Rightarrow> delay_timer list" where
  "stop_timer i ts = (if i < length ts then ts[i := (ts ! i)\<lparr>active := False\<rparr>] else ts)"

definition scheduleApply :: "int \<Rightarrow> real \<Rightarrow> real \<Rightarrow> world \<Rightarrow> world" where
  "scheduleApply t b g w =
     (let ps = (case cancel (ui w) of Some c \<Rightarrow> cancel_ctx c (procs w) | None \<Rightarrow> procs w);
          ts = (case timer (ui w) of Some i \<Rightarrow> stop_timer i (timers w) | None \<Rightarrow> timers w)
      in w\<lparr>ui := (ui w)\<lparr>cancel := None, timer := Some (length ts)\<rparr>,
           timers := ts @ [\<lparr>fireAt = now w + debounce, captured = (t, b, g), active = True\<rparr>],
           procs := ps\<rparr>)"

definition onChange :: "world \<Rightarrow> world" where
  "onChange w =
     (if silence (ui w) then w
      else scheduleApply (go_int (tempK (ui w))) (brightness (ui w)) (gamma (ui w)) w)"

text \<open>
  The user moves a slider: the toolkit stores the new value and calls the slider's
  \<open>OnChanged\<close>, which (after updating the value label) calls \<open>onChange\<close>.
\<close>

definition user_change :: "slider \<Rightarrow> real \<Rightarrow> world \<Rightarrow> world" where
  "user_change s v w = onChange (w\<lparr>ui := set_value s v (ui w)\<rparr>)"

text \<open>
  \<open>LabeledSlider.SetValue\<close> calls the toolkit's \<open>Slider.SetValue\<close>, which stores the
  value and may call \<open>OnChanged\<close>. Whether it does, given the old and the new value, is
  the toolkit's business: the parameter \<open>notifies\<close>.
\<close>

definition SetValue :: "(real \<Rightarrow> real \<Rightarrow> bool) \<Rightarrow> slider \<Rightarrow> real \<Rightarrow> world \<Rightarrow> world" where
  "SetValue notifies s v w =
     (let old = get_value s (ui w);
          w' = w\<lparr>ui := set_value s v (ui w)\<rparr>
      in if notifies old v then onChange w' else w')"

subsection \<open>apply and reset\<close>

text \<open>
  Both goroutines begin alike: make a context with the deadline, store its
  \<open>CancelFunc\<close> in \<open>u.cancel\<close>, start the command.
\<close>

definition start_cmd :: "command \<Rightarrow> world \<Rightarrow> world" where
  "start_cmd k w =
     w\<lparr>ui := (ui w)\<lparr>cancel := Some (length (procs w))\<rparr>,
       procs := procs w @ [\<lparr>kind = k, started = now w, ctxErr = NoErr, running = True\<rparr>]\<rparr>"

text \<open>The command has returned; the deferred \<open>cancel()\<close> runs.\<close>

definition finished :: "nat \<Rightarrow> invocation list \<Rightarrow> invocation list" where
  "finished i ps = cancel_ctx i (ps[i := (ps ! i)\<lparr>running := False\<rparr>])"

text \<open>The rest of \<open>apply\<close>, from the return of \<open>cmd.CombinedOutput()\<close>.\<close>

definition apply_finish :: "nat \<Rightarrow> string \<Rightarrow> string option \<Rightarrow> world \<Rightarrow> world" where
  "apply_finish i outBytes err w =
     (let msg = apply_msg outBytes err (ctxErr (procs w ! i))
      in w\<lparr>ui := (ui w)\<lparr>out := msg\<rparr>, procs := finished i (procs w)\<rparr>)"

text \<open>The function \<open>reset\<close> hands to \<open>fyne.Do\<close>; it runs on the interaction thread.\<close>

definition reset_restore :: "(real \<Rightarrow> real \<Rightarrow> bool) \<Rightarrow> string \<Rightarrow> world \<Rightarrow> world" where
  "reset_restore notifies msg w =
     (let w1 = w\<lparr>ui := (ui w)\<lparr>silence := True\<rparr>\<rparr>;
          w2 = SetValue notifies STemp 6500 w1;
          w3 = SetValue notifies SBrightness 1 w2;
          w4 = SetValue notifies SGamma 1 w3;
          w5 = w4\<lparr>ui := (ui w4)\<lparr>silence := False\<rparr>\<rparr>
      in w5\<lparr>ui := (ui w5)\<lparr>out := msg\<rparr>\<rparr>)"

definition reset_finish ::
  "(real \<Rightarrow> real \<Rightarrow> bool) \<Rightarrow> nat \<Rightarrow> string \<Rightarrow> string option \<Rightarrow> world \<Rightarrow> world" where
  "reset_finish notifies i outBytes err w =
     (let w' = reset_restore notifies (reset_msg outBytes err) w
      in w'\<lparr>procs := finished i (procs w')\<rparr>)"

subsection \<open>Time and events\<close>

text \<open>A pending timer whose time has come calls its function: \<open>go u.apply(t, b, g)\<close>.\<close>

definition due :: "nat \<Rightarrow> delay_timer \<Rightarrow> bool" where
  "due t x = (active x \<and> fireAt x \<le> t)"

definition fire :: "delay_timer \<Rightarrow> world \<Rightarrow> world" where
  "fire x w =
     (case captured x of (t, b, g) \<Rightarrow> start_cmd (ApplyCmd t b g) (w\<lparr>now := fireAt x\<rparr>))"

text \<open>A context whose deadline has passed is done with \<open>DeadlineExceeded\<close>.\<close>

definition expire :: "nat \<Rightarrow> invocation \<Rightarrow> invocation" where
  "expire t p =
     (if running p \<and> ctxErr p = NoErr \<and> started p + timeout \<le> t
      then p\<lparr>ctxErr := DeadlineExceeded\<rparr> else p)"

text \<open>Time moves on to \<open>t\<close>: the due timers fire, in the order they were made.\<close>

definition advance :: "nat \<Rightarrow> world \<Rightarrow> world" where
  "advance t w =
     (let w1 = fold fire (filter (due t) (timers w))
                 (w\<lparr>timers := map (\<lambda>x. if due t x then x\<lparr>active := False\<rparr> else x) (timers w)\<rparr>)
      in w1\<lparr>now := t, procs := map (expire t) (procs w1)\<rparr>)"

text \<open>
  What happens from outside: the user moves a slider, the user clicks the reset button
  (\<open>go u.reset()\<close>), or a running command returns its output and error.
\<close>

datatype event = Slide slider real | ClickReset | Returns nat string "string option"

fun step :: "(real \<Rightarrow> real \<Rightarrow> bool) \<Rightarrow> event \<Rightarrow> world \<Rightarrow> world" where
  "step nf (Slide s v) w = user_change s v w"
| "step nf ClickReset w = start_cmd ResetCmd w"
| "step nf (Returns i outBytes err) w =
     (if i < length (procs w) \<and> running (procs w ! i) then
        (case kind (procs w ! i) of
           ApplyCmd t b g \<Rightarrow> apply_finish i outBytes err w
         | ResetCmd \<Rightarrow> reset_finish nf i outBytes err w)
      else w)"

fun run :: "(real \<Rightarrow> real \<Rightarrow> bool) \<Rightarrow> (nat \<times> event) list \<Rightarrow> world \<Rightarrow> world" where
  "run nf [] w = w"
| "run nf ((t, e) # es) w = run nf es (step nf e (advance t w))"

text \<open>The invocations in flight: started, and not yet returned.\<close>

definition in_flight :: "world \<Rightarrow> invocation list" where
  "in_flight w = filter running (procs w)"

text \<open>Parameter changes as events, and the slider values after a sequence of them.\<close>

fun change_event :: "nat \<times> slider \<times> real \<Rightarrow> nat \<times> event" where
  "change_event (t, s, v) = (t, Slide s v)"

fun sliders_after :: "(nat \<times> slider \<times> real) list \<Rightarrow> uiState \<Rightarrow> uiState" where
  "sliders_after [] u = u"
| "sliders_after ((t, s, v) # cs) u = sliders_after cs (set_value s v u)"

text \<open>Each change comes less than the debounce interval after the one before.\<close>

fun close_together :: "nat list \<Rightarrow> bool" where
  "close_together (a # b # ts) = (a \<le> b \<and> b < a + debounce \<and> close_together (b # ts))"
| "close_together ts = True"

subsection \<open>Notions used in the proofs\<close>

text \<open>The values \<open>onChange\<close> reads from the sliders and passes to \<open>scheduleApply\<close>.\<close>

definition snapshot :: "uiState \<Rightarrow> int \<times> real \<times> real" where
  "snapshot s = (go_int (tempK s), brightness s, gamma s)"

text \<open>No timer leaks: a pending timer is the one \<open>u.timer\<close> points to.\<close>

definition slot_holds_pending :: "world \<Rightarrow> bool" where
  "slot_holds_pending w \<longleftrightarrow>
     (\<forall>i < length (timers w). active (timers w ! i) \<longrightarrow> timer (ui w) = Some i)"

text \<open>
  The state right after a change at time \<open>t\<close>: the newest timer is the only pending one, it
  fires at \<open>t + debounce\<close> and carries the current values.
\<close>

definition pending_last :: "nat \<Rightarrow> world \<Rightarrow> bool" where
  "pending_last t w \<longleftrightarrow>
     timers w \<noteq> []
     \<and> last (timers w) = \<lparr>fireAt = t + debounce, captured = snapshot (ui w), active = True\<rparr>
     \<and> (\<forall>x \<in> set (butlast (timers w)). \<not> active x)
     \<and> timer (ui w) = Some (length (timers w) - 1)
     \<and> \<not> silence (ui w)"

text \<open>A continuation byte of UTF-8: no encoding starts with one.\<close>

definition continuation :: "char \<Rightarrow> bool" where
  "continuation c = (128 \<le> (of_char c :: nat) \<and> (of_char c :: nat) < 192)"

subsection \<open>Concrete states\<close>

text \<open>A toolkit whose \<open>Slider.SetValue\<close> calls \<open>OnChanged\<close> when the value differs.\<close>

definition toolkit_notifies :: "real \<Rightarrow> real \<Rightarrow> bool" where
  "toolkit_notifies old new = (old \<noteq> new)"

text \<open>The window right after start-up, the tool being installed.\<close>

definition ready_world :: world where
  "ready_world = main_init (\<lambda>name. True)"

text \<open>
  The temperature slider was moved to 5000 at time 0 and 260 ms have passed: the apply
  for 5000 K has been running for 10 ms.
\<close>

definition applying_world :: world where
  "applying_world =
     advance (260 * millisecond) (run toolkit_notifies [(0, Slide STemp 5000)] ready_world)"

section \<open>Lemmas\<close>

lemmas run_defs =
  main_init_def advance_def due_def fire_def start_cmd_def expire_def user_change_def
  onChange_def scheduleApply_def cancel_ctx_def stop_timer_def apply_finish_def
  reset_finish_def reset_restore_def SetValue_def finished_def apply_msg_def reset_msg_def
  TrimSpace_def space_encodings_def go_int_def debounce_def timeout_def millisecond_def
  second_def Let_def in_flight_def not_found_msg_def toolkit_notifies_def ready_world_def
  applying_world_def

subsection \<open>Trimming\<close>

lemma strip_space_encoding:
  "e \<in> set space_encodings \<Longrightarrow>
     strip_prefixes space_encodings (e @ s) = strip_prefixes space_encodings s"
  unfolding space_encodings_def by (elim disjE | simp)+

lemma strip_concat:
  "set es \<subseteq> set space_encodings \<Longrightarrow> strip_prefixes space_encodings (concat es) = []"
  by (induction es) (simp_all add: strip_space_encoding)

lemma TrimSpace_Nil: "TrimSpace [] = []"
  by (simp add: TrimSpace_def)

lemma TrimSpace_whitespace:
  "set es \<subseteq> set space_encodings \<Longrightarrow> TrimSpace (concat es) = []"
  by (simp add: TrimSpace_def strip_concat)

subsection \<open>Decimal digits\<close>

lemma digit_value_digit: "d < 10 \<Longrightarrow> digit_value (''0123456789'' ! d) = d"
proof -
  assume "d < 10"
  then have "d \<in> {0, 1, 2, 3, 4, 5, 6, 7, 8, 9}" by auto
  then show ?thesis by (auto simp: digit_value_def)
qed

lemma read_nat_snoc: "read_nat (s @ [c]) = 10 * read_nat s + digit_value c"
  by (simp add: read_nat_def)

lemma read_fmt_nat: "read_nat (fmt_nat n) = n"
proof (induction n rule: fmt_nat.induct)
  case (1 n)
  show ?case
  proof (cases "n < 10")
    case True
    then show ?thesis by (simp add: fmt_nat.simps[of n] read_nat_def digit_value_digit)
  next
    case False
    with 1 show ?thesis
      by (simp add: fmt_nat.simps[of n] read_nat_snoc digit_value_digit)
  qed
qed

subsection \<open>Suppression\<close>

lemma onChange_silent: "silence (ui w) \<Longrightarrow> onChange w = w"
  by (simp add: onChange_def)

lemma SetValue_silent:
  "silence (ui w) \<Longrightarrow> SetValue nf s v w = w\<lparr>ui := set_value s v (ui w)\<rparr>"
  by (cases s) (simp_all add: SetValue_def Let_def onChange_def)

lemma reset_restore_eq:
  "reset_restore nf msg w =
     w\<lparr>ui := (ui w)\<lparr>tempK := 6500, brightness := 1, gamma := 1, silence := False, out := msg\<rparr>\<rparr>"
  by (simp add: reset_restore_def Let_def SetValue_silent)

text \<open>Without the flag, a write that the toolkit reports does schedule an apply.\<close>

lemma SetValue_loud_schedules:
  "\<not> silence (ui w) \<Longrightarrow> nf (get_value s (ui w)) v \<Longrightarrow>
     length (timers (SetValue nf s v w)) = Suc (length (timers w))"
  by (cases s)
     (simp_all add: SetValue_def Let_def onChange_def scheduleApply_def stop_timer_def
        split: option.splits)

subsection \<open>Timers and invocations\<close>

lemma kind_cancel_ctx [simp]: "map kind (cancel_ctx c ps) = map kind ps"
  by (simp add: cancel_ctx_def map_update list_update_same_conv)

lemma kind_expire [simp]: "kind (expire t p) = kind p"
  by (simp add: expire_def)

lemma length_cancel_ctx [simp]: "length (cancel_ctx c ps) = length ps"
  by (simp add: cancel_ctx_def)

lemma advance_nothing_due:
  assumes "\<forall>x \<in> set (timers w). \<not> due t x"
  shows "advance t w = w\<lparr>now := t, procs := map (expire t) (procs w)\<rparr>"
proof -
  from assms have f: "filter (due t) (timers w) = []"
    by (simp add: filter_empty_conv)
  from assms have m: "map (\<lambda>x. if due t x then x\<lparr>active := False\<rparr> else x) (timers w) = timers w"
    by (simp add: map_idI)
  show ?thesis
    by (simp add: advance_def f m)
qed

lemma stop_slot_all_inactive:
  assumes "slot_holds_pending w"
  shows "\<forall>x \<in> set (case timer (ui w) of Some i \<Rightarrow> stop_timer i (timers w) | None \<Rightarrow> timers w).
           \<not> active x"
proof (cases "timer (ui w)")
  case None
  with assms show ?thesis
    by (auto simp: slot_holds_pending_def in_set_conv_nth)
next
  case (Some i)
  have "\<not> active (stop_timer i (timers w) ! j)" if "j < length (timers w)" for j
    using that assms Some
    by (auto simp: slot_holds_pending_def stop_timer_def nth_list_update)
  then show ?thesis
    using Some by (auto simp: in_set_conv_nth stop_timer_def)
qed

lemma length_stop_slot:
  "length (case timer u of Some i \<Rightarrow> stop_timer i ts | None \<Rightarrow> ts) = length ts"
  by (simp add: stop_timer_def split: option.splits)

lemma silence_set_value: "silence (set_value s v u) = silence u"
  by (cases s) simp_all

lemma timer_set_value: "timer (set_value s v u) = timer u"
  by (cases s) simp_all

lemma cancel_set_value: "cancel (set_value s v u) = cancel u"
  by (cases s) simp_all

lemma snapshot_upd [simp]: "snapshot (u\<lparr>cancel := c, timer := k\<rparr>) = snapshot u"
  by (simp add: snapshot_def)

lemma change_step:
  fixes nf :: "real \<Rightarrow> real \<Rightarrow> bool" and s :: slider and v :: real
  assumes inv: "slot_holds_pending w"
    and nodue: "\<forall>x \<in> set (timers w). \<not> due t x"
    and sil: "\<not> silence (ui w)"
  defines "w' \<equiv> step nf (Slide s v) (advance t w)"
  shows "pending_last t w'"
    and "map kind (procs w') = map kind (procs w)"
    and "snapshot (ui w') = snapshot (set_value s v (ui w))"
proof -
  let ?ts = "case timer (ui w) of Some i \<Rightarrow> stop_timer i (timers w) | None \<Rightarrow> timers w"
  let ?u = "set_value s v (ui w)"
  have w': "w' = scheduleApply (go_int (tempK ?u)) (brightness ?u) (gamma ?u)
                  (w\<lparr>now := t, procs := map (expire t) (procs w), ui := ?u\<rparr>)"
    using sil by (simp add: w'_def advance_nothing_due[OF nodue] user_change_def onChange_def
        silence_set_value)
  have ts: "timers w' = ?ts @ [\<lparr>fireAt = t + debounce, captured = snapshot ?u, active = True\<rparr>]"
    by (simp add: w' scheduleApply_def Let_def timer_set_value snapshot_def cong: option.case_cong)
  have ui: "ui w' = ?u\<lparr>cancel := None, timer := Some (length ?ts)\<rparr>"
    by (simp add: w' scheduleApply_def Let_def timer_set_value cong: option.case_cong)
  show "snapshot (ui w') = snapshot ?u"
    by (simp add: ui)
  show "map kind (procs w') = map kind (procs w)"
    by (simp add: w' scheduleApply_def Let_def split: option.splits)
  show "pending_last t w'"
    using stop_slot_all_inactive[OF inv] sil
    by (simp add: pending_last_def ts ui silence_set_value)
qed

lemma pending_last_inv: "pending_last t w \<Longrightarrow> slot_holds_pending w"
proof -
  assume p: "pending_last t w"
  show ?thesis
    unfolding slot_holds_pending_def
  proof (intro allI impI)
    fix i assume i: "i < length (timers w)" and a: "active (timers w ! i)"
    show "timer (ui w) = Some i"
    proof (cases "i = length (timers w) - 1")
      case True
      with p show ?thesis by (simp add: pending_last_def)
    next
      case False
      with i have "i < length (butlast (timers w))" by simp
      then have "timers w ! i \<in> set (butlast (timers w))"
        by (metis nth_butlast nth_mem)
      with p a show ?thesis by (simp add: pending_last_def)
    qed
  qed
qed

lemma pending_last_not_due:
  assumes "pending_last t0 w" and "t < t0 + debounce"
  shows "\<forall>x \<in> set (timers w). \<not> due t x"
proof
  fix x assume "x \<in> set (timers w)"
  moreover from assms(1) have "timers w \<noteq> []"
    by (simp add: pending_last_def)
  then have "set (timers w) = set (butlast (timers w) @ [last (timers w)])"
    by simp
  ultimately have "x \<in> set (butlast (timers w)) \<or> x = last (timers w)"
    by (simp only: set_append list.set) blast
  with assms show "\<not> due t x"
    by (auto simp: pending_last_def due_def)
qed

lemma pending_last_fires:
  assumes p: "pending_last t0 w" and T: "t0 + debounce \<le> T"
  defines "w' \<equiv> advance T w"
  shows "map kind (procs w') =
           map kind (procs w) @ [case snapshot (ui w) of (t, b, g) \<Rightarrow> ApplyCmd t b g]"
    and "started (last (procs w')) = t0 + debounce"
    and "\<forall>x \<in> set (timers w'). \<not> active x"
    and "snapshot (ui w') = snapshot (ui w)"
proof -
  let ?x = "\<lparr>fireAt = t0 + debounce, captured = snapshot (ui w), active = True\<rparr>"
  from p have "timers w \<noteq> []" and "last (timers w) = ?x"
    by (simp_all add: pending_last_def)
  then have ts: "timers w = butlast (timers w) @ [?x]"
    using append_butlast_last_id[of "timers w"] by simp
  from p have bl: "\<forall>x \<in> set (butlast (timers w)). \<not> due T x"
    by (simp add: pending_last_def due_def)
  have dx: "due T ?x" using T by (simp add: due_def)
  have f: "filter (due T) (timers w) = [?x]"
    by (subst ts) (simp add: bl dx filter_empty_conv)
  have m: "map (\<lambda>x. if due T x then x\<lparr>active := False\<rparr> else x) (timers w)
             = butlast (timers w) @ [?x\<lparr>active := False\<rparr>]"
    by (subst ts) (simp add: bl dx map_idI)
  obtain t b g where snap: "snapshot (ui w) = (t, b, g)"
    by (cases "snapshot (ui w)")
  have w': "w' = (start_cmd (ApplyCmd t b g)
                   (w\<lparr>timers := butlast (timers w) @ [?x\<lparr>active := False\<rparr>], now := t0 + debounce\<rparr>))
                 \<lparr>now := T, procs := map (expire T) (procs (start_cmd (ApplyCmd t b g)
                   (w\<lparr>timers := butlast (timers w) @ [?x\<lparr>active := False\<rparr>], now := t0 + debounce\<rparr>)))\<rparr>"
    by (simp add: w'_def advance_def f m fire_def snap Let_def)
  show "map kind (procs w') =
           map kind (procs w) @ [case snapshot (ui w) of (t, b, g) \<Rightarrow> ApplyCmd t b g]"
    by (simp add: w' start_cmd_def snap)
  show "started (last (procs w')) = t0 + debounce"
    by (simp add: w' start_cmd_def expire_def)
  show "\<forall>x \<in> set (timers w'). \<not> active x"
    using p by (simp add: w' start_cmd_def pending_last_def)
  show "snapshot (ui w') = snapshot (ui w)"
    by (simp add: w' start_cmd_def snapshot_def)
qed

lemma snapshot_sliders_after:
  "snapshot u = snapshot u' \<Longrightarrow> snapshot (sliders_after cs u) = snapshot (sliders_after cs u')"
proof (induction cs arbitrary: u u')
  case Nil
  then show ?case by simp
next
  case (Cons c cs)
  obtain t s v where c: "c = (t, s, v)" by (cases c)
  from Cons.prems have "snapshot (set_value s v u) = snapshot (set_value s v u')"
    by (cases s) (simp_all add: snapshot_def)
  then have "snapshot (sliders_after cs (set_value s v u))
               = snapshot (sliders_after cs (set_value s v u'))"
    by (rule Cons.IH)
  then show ?case by (simp add: c)
qed

lemma run_changes:
  fixes nf :: "real \<Rightarrow> real \<Rightarrow> bool"
  assumes "cs \<noteq> []" and "close_together (map fst cs)"
    and "slot_holds_pending w" and "\<forall>x \<in> set (timers w). \<not> due (fst (hd cs)) x"
    and "\<not> silence (ui w)"
  defines "w' \<equiv> run nf (map change_event cs) w"
  shows "pending_last (fst (last cs)) w'
         \<and> map kind (procs w') = map kind (procs w)
         \<and> snapshot (ui w') = snapshot (sliders_after cs (ui w))"
  using assms(1-5) unfolding w'_def
proof (induction cs arbitrary: w)
  case Nil
  then show ?case by simp
next
  case (Cons c cs)
  obtain t s v where c: "c = (t, s, v)" by (cases c)
  let ?w1 = "step nf (Slide s v) (advance t w)"
  from Cons.prems c have nodue: "\<forall>x \<in> set (timers w). \<not> due t x" by simp
  note st = change_step[OF Cons.prems(3) nodue Cons.prems(5), of nf s v]
  show ?case
  proof (cases cs)
    case Nil
    with st c show ?thesis by simp
  next
    case (Cons c' cs')
    with Cons.prems(2) c have gap: "fst (hd cs) < t + debounce" and ct: "close_together (map fst cs)"
      by simp_all
    have ne: "cs \<noteq> []" using Cons by simp
    have pl: "pending_last t ?w1" by (rule st(1))
    have sil: "\<not> silence (ui ?w1)" using pl by (simp add: pending_last_def)
    from Cons.IH[OF ne ct pending_last_inv[OF pl] pending_last_not_due[OF pl gap] sil]
    have ih: "pending_last (fst (last cs)) (run nf (map change_event cs) ?w1)
         \<and> map kind (procs (run nf (map change_event cs) ?w1)) = map kind (procs ?w1)
         \<and> snapshot (ui (run nf (map change_event cs) ?w1)) = snapshot (sliders_after cs (ui ?w1))" .
    have "snapshot (sliders_after cs (ui ?w1)) = snapshot (sliders_after cs (set_value s v (ui w)))"
      by (rule snapshot_sliders_after) (rule st(3))
    with ih st(2) c ne show ?thesis by simp
  qed
qed

lemma procs_fire_nth:
  "i < length (procs w) \<Longrightarrow>
     i < length (procs (fire x w)) \<and> procs (fire x w) ! i = procs w ! i"
  by (cases "captured x") (simp add: fire_def start_cmd_def nth_append)

lemma procs_fold_fire_nth:
  "i < length (procs w) \<Longrightarrow>
     i < length (procs (fold fire xs w)) \<and> procs (fold fire xs w) ! i = procs w ! i"
proof (induction xs arbitrary: w)
  case Nil
  then show ?case by simp
next
  case (Cons x xs)
  from procs_fire_nth[OF Cons.prems, of x]
  have a: "i < length (procs (fire x w))" and b: "procs (fire x w) ! i = procs w ! i"
    by simp_all
  from Cons.IH[OF a] b show ?case by simp
qed

lemma advance_nth:
  assumes "i < length (procs w)"
  shows "i < length (procs (advance t w)) \<and> procs (advance t w) ! i = expire t (procs w ! i)"
proof -
  let ?w0 = "w\<lparr>timers := map (\<lambda>x. if due t x then x\<lparr>active := False\<rparr> else x) (timers w)\<rparr>"
  from assms have "i < length (procs ?w0)" by simp
  from procs_fold_fire_nth[OF this, of "filter (due t) (timers w)"]
  show ?thesis by (simp add: advance_def Let_def)
qed

lemma out_advance_returns_apply:
  assumes i: "i < length (procs w)" and k: "kind (procs w ! i) = ApplyCmd t b g"
    and r: "running (procs w ! i)"
  shows "out (ui (step nf (Returns i ob err) (advance t2 w)))
           = apply_msg ob err (ctxErr (expire t2 (procs w ! i)))"
proof -
  from advance_nth[OF i, of t2]
  have a: "i < length (procs (advance t2 w))"
    and b: "procs (advance t2 w) ! i = expire t2 (procs w ! i)" by simp_all
  have "running (expire t2 (procs w ! i))" using r by (simp add: expire_def)
  moreover have "kind (expire t2 (procs w ! i)) = ApplyCmd t b g" using k by simp
  ultimately show ?thesis
    using a b by (simp add: apply_finish_def Let_def)
qed

subsection \<open>Concrete states, evaluated\<close>

lemma applying_world_eq:
  "applying_world =
     \<lparr>now = 260000000,
      ui = \<lparr>tempK = 5000, brightness = 1, gamma = 1, out = ''Ready.'',
            timer = Some 0, cancel = Some 0, silence = False\<rparr>,
      timers = [\<lparr>fireAt = 250000000, captured = (5000, 1, 1), active = False\<rparr>],
      procs = [\<lparr>kind = ApplyCmd 5000 1 1, started = 250000000, ctxErr = NoErr,
                running = True\<rparr>]\<rparr>"
  by (simp add: run_defs)

lemma kind_finished: "map kind (finished i ps) = map kind ps"
  by (cases "i < length ps") (simp_all add: finished_def map_update list_update_same_conv list_update_beyond)

subsection \<open>What the two verbs print\<close>

lemma digit_is_digit: "d < 10 \<Longrightarrow> is_digit (''0123456789'' ! d)"
proof -
  assume "d < 10"
  then have "d \<in> {0, 1, 2, 3, 4, 5, 6, 7, 8, 9}" by auto
  then show ?thesis by (auto simp: is_digit_def)
qed

lemma not_digit_minus: "is_digit c \<Longrightarrow> c \<noteq> CHR ''-''"
  by (auto simp: is_digit_def)

lemma not_digit_point: "is_digit c \<Longrightarrow> c \<noteq> CHR ''.''"
  by (auto simp: is_digit_def)

lemma fmt_nat_digits: "fmt_nat n \<noteq> [] \<and> list_all is_digit (fmt_nat n)"
proof (induction n rule: fmt_nat.induct)
  case (1 n)
  show ?case
  proof (cases "n < 10")
    case True
    then show ?thesis by (simp add: fmt_nat.simps[of n] digit_is_digit)
  next
    case False
    with 1 show ?thesis
      by (simp add: fmt_nat.simps[of n] digit_is_digit)
  qed
qed

lemma digits_not_negative: "s \<noteq> [] \<Longrightarrow> list_all is_digit s \<Longrightarrow> \<not> negative s"
  by (cases s) (auto simp: negative_def dest: not_digit_minus)

lemma fmt_nat_not_negative: "\<not> negative (fmt_nat n @ r)"
proof -
  obtain c cs where "fmt_nat n = c # cs" and "is_digit c"
    using fmt_nat_digits[of n] by (cases "fmt_nat n") auto
  then show ?thesis by (auto simp: negative_def dest: not_digit_minus)
qed

lemma read_int_fmt_d: "read_int (fmt_d t) = t"
proof (cases "t < 0")
  case True
  then show ?thesis
    by (simp add: fmt_d_def read_int_def negative_def unsigned_def read_fmt_nat)
next
  case False
  then show ?thesis
    using fmt_nat_not_negative[of "nat t" "[]"]
    by (simp add: fmt_d_def read_int_def read_fmt_nat)
qed

lemma is_decimal_int_fmt_d: "is_decimal_int (fmt_d t)"
proof (cases "t < 0")
  case True
  then show ?thesis
    using fmt_nat_digits[of "nat (- t)"]
    by (simp add: fmt_d_def is_decimal_int_def negative_def unsigned_def)
next
  case False
  then show ?thesis
    using fmt_nat_not_negative[of "nat t" "[]"] fmt_nat_digits[of "nat t"]
    by (simp add: fmt_d_def is_decimal_int_def unsigned_def)
qed

lemma round_half_even_cases:
  fixes y :: real and f :: nat
  assumes "real f \<le> y" and "y < real f + 1"
  shows "\<bar>real (if y - real f < 1 / 2 then f
               else if 1 / 2 < y - real f then f + 1
               else if even f then f else f + 1) - y\<bar> \<le> 1 / 2"
  using assms by (simp add: abs_if)

lemma round_half_even_close:
  assumes "0 \<le> y"
  shows "\<bar>real (round_half_even y) - y\<bar> \<le> 1 / 2"
proof -
  define f where "f = nat \<lfloor>y\<rfloor>"
  have "real f = of_int \<lfloor>y\<rfloor>" using assms by (simp add: f_def)
  then have "real f \<le> y" and "y < real f + 1" by linarith+
  then show ?thesis
    unfolding round_half_even_def Let_def f_def [symmetric]
    by (rule round_half_even_cases)
qed

lemma signed_parts:
  assumes ne: "ip \<noteq> []" and dg: "list_all is_digit ip"
    and s: "s = (if neg then CHR ''-'' # ip @ CHR ''.'' # ds else ip @ CHR ''.'' # ds)"
  shows "negative s = neg"
    and "unsigned s = ip @ CHR ''.'' # ds"
    and "int_part s = ip"
    and "decimals s = ds"
proof -
  obtain c cs where ip: "ip = c # cs" and c: "is_digit c"
    using ne dg by (cases ip) auto
  have nd: "\<forall>x \<in> set ip. x \<noteq> CHR ''.''"
    using dg by (auto simp: list_all_iff dest: not_digit_point)
  show n: "negative s = neg"
    using c by (auto simp: s negative_def ip dest: not_digit_minus)
  show u: "unsigned s = ip @ CHR ''.'' # ds"
    unfolding unsigned_def n by (simp add: s)
  show "int_part s = ip"
    unfolding int_part_def u using nd by (simp add: takeWhile_append2)
  show "decimals s = ds"
    unfolding decimals_def u using nd by (simp add: dropWhile_append2)
qed

lemma read_two_digits:
  "a < 10 \<Longrightarrow> b < 10 \<Longrightarrow>
     read_nat [''0123456789'' ! a, ''0123456789'' ! b] = 10 * a + b"
  by (simp add: read_nat_def digit_value_digit)

lemma fmt_2f_shape:
  fixes x :: real
  defines "n \<equiv> round_half_even (\<bar>x\<bar> * 100)"
  shows "has_two_decimals (fmt_2f x)"
    and "negative (fmt_2f x) = (x < 0)"
    and "read_decimal (fmt_2f x) = (if x < 0 then - (real n / 100) else real n / 100)"
proof -
  let ?ds = "[''0123456789'' ! (n mod 100 div 10), ''0123456789'' ! (n mod 10)]"
  let ?ip = "fmt_nat (n div 100)"
  have f: "fmt_2f x = (if x < 0 then CHR ''-'' # ?ip @ CHR ''.'' # ?ds else ?ip @ CHR ''.'' # ?ds)"
    by (simp add: fmt_2f_def n_def Let_def)
  have ne: "?ip \<noteq> []" and dg: "list_all is_digit ?ip"
    using fmt_nat_digits[of "n div 100"] by simp_all
  note p = signed_parts[OF ne dg f]
  have d1: "n mod 100 div 10 < 10" and d2: "n mod 10 < 10" by simp_all
  have dd: "list_all is_digit ?ds"
    using d1 d2 by (simp add: digit_is_digit)
  show "has_two_decimals (fmt_2f x)"
    unfolding has_two_decimals_def p using ne dg dd by simp
  show "negative (fmt_2f x) = (x < 0)"
    by (rule p(1))
  have "n mod 10 = n mod 100 mod 10"
    by (simp add: mod_mod_cancel)
  then have "10 * (n mod 100 div 10) + n mod 10 = n mod 100"
    by (simp only: mult_div_mod_eq)
  then have r: "read_nat ?ds = n mod 100"
    using read_two_digits[OF d1 d2] by simp
  have "real n = real (100 * (n div 100) + n mod 100)" by simp
  then have e: "real (n div 100) + real (n mod 100) / 100 = real n / 100"
    by (simp only: of_nat_add of_nat_mult) simp
  show "read_decimal (fmt_2f x) = (if x < 0 then - (real n / 100) else real n / 100)"
    unfolding read_decimal_def p Let_def r read_fmt_nat using e by simp
qed

lemma read_fmt_2f_close: "\<bar>read_decimal (fmt_2f x) - x\<bar> \<le> 1 / 200"
proof -
  define n where "n = round_half_even (\<bar>x\<bar> * 100)"
  have "\<bar>real n - \<bar>x\<bar> * 100\<bar> \<le> 1 / 2"
    unfolding n_def by (rule round_half_even_close) simp
  then have c: "\<bar>real n / 100 - \<bar>x\<bar>\<bar> \<le> 1 / 200"
    by (simp add: abs_if split: if_splits)
  show ?thesis
    using c fmt_2f_shape(3)[of x]
    by (simp add: n_def abs_if split: if_splits)
qed

lemma fmt_2f_examples:
  "fmt_2f 0.125 = ''0.12''" "fmt_2f 0.375 = ''0.38''" "fmt_2f 1 = ''1.00''"
  "fmt_2f 2.5 = ''2.50''" "fmt_2f (- 0.001) = ''-0.00''" "fmt_2f 12.349 = ''12.35''"
  by (simp_all add: fmt_2f_def round_half_even_def Let_def fmt_nat.simps)

subsection \<open>What trimming leaves\<close>

lemma encoding_bytes:
  "e \<in> set space_encodings \<Longrightarrow>
     e \<noteq> [] \<and> \<not> continuation (hd e) \<and> (\<forall>c \<in> set (tl e). continuation c)"
  unfolding space_encodings_def continuation_def by (elim disjE | simp)+

lemma strip_rev_encoding:
  "e \<in> set (map rev space_encodings) \<Longrightarrow>
     strip_prefixes (map rev space_encodings) (e @ s)
       = strip_prefixes (map rev space_encodings) s"
  unfolding space_encodings_def by (elim disjE | simp)+

lemma concat_encodings_hd:
  "set fs \<subseteq> set space_encodings \<Longrightarrow> concat fs \<noteq> [] \<Longrightarrow>
     \<not> continuation (hd (concat fs))"
proof (induction fs)
  case Nil
  then show ?case by simp
next
  case (Cons e fs)
  then have "e \<in> set space_encodings" by simp
  from encoding_bytes[OF this] show ?case by simp
qed

lemma no_prefix_append:
  assumes ne: "core \<noteq> []"
    and np: "\<forall>e \<in> set space_encodings. \<not> prefix e core"
    and fs: "set fs \<subseteq> set space_encodings"
  shows "\<forall>e \<in> set space_encodings. \<not> prefix e (core @ concat fs)"
proof (intro ballI notI)
  fix e assume e: "e \<in> set space_encodings" and p: "prefix e (core @ concat fs)"
  from p np e obtain us where us: "e = core @ us" and pu: "prefix us (concat fs)"
    by (auto simp: prefix_append)
  from us np e have une: "us \<noteq> []" by auto
  from pu obtain zs where z: "concat fs = us @ zs"
    by (auto simp: prefix_def)
  have rne: "concat fs \<noteq> []"
    unfolding z using une by simp
  have hd: "hd us = hd (concat fs)"
    unfolding z using une by simp
  from us ne une have "hd us \<in> set (tl e)" by (cases core) auto
  with encoding_bytes[OF e] have "continuation (hd us)" by simp
  moreover from concat_encodings_hd[OF fs rne] hd have "\<not> continuation (hd us)" by simp
  ultimately show False by simp
qed

lemma strip_none:
  "\<forall>e \<in> set encs. \<not> prefix e s \<Longrightarrow> strip_prefixes encs s = s"
proof (cases s)
  case Nil
  then show ?thesis by simp
next
  case (Cons c r)
  assume "\<forall>e \<in> set encs. \<not> prefix e s"
  then have "find (\<lambda>e. prefix e (c # r)) encs = None"
    by (simp add: find_None_iff Cons)
  then show ?thesis by (simp add: Cons)
qed

lemma strip_concat_append:
  "set es \<subseteq> set space_encodings \<Longrightarrow>
     strip_prefixes space_encodings (concat es @ s) = strip_prefixes space_encodings s"
  by (induction es) (simp_all add: strip_space_encoding)

lemma strip_rev_concat_append:
  "set fs \<subseteq> set space_encodings \<Longrightarrow>
     strip_prefixes (map rev space_encodings) (rev (concat fs) @ s)
       = strip_prefixes (map rev space_encodings) s"
proof (induction fs arbitrary: s)
  case Nil
  then show ?case by simp
next
  case (Cons e fs)
  then have e: "rev e \<in> set (map rev space_encodings)" and fs: "set fs \<subseteq> set space_encodings"
    by simp_all
  have "strip_prefixes (map rev space_encodings) (rev (concat (e # fs)) @ s)
          = strip_prefixes (map rev space_encodings) (rev (concat fs) @ (rev e @ s))"
    by simp
  also have "\<dots> = strip_prefixes (map rev space_encodings) (rev e @ s)"
    by (rule Cons.IH[OF fs])
  also have "\<dots> = strip_prefixes (map rev space_encodings) s"
    by (rule strip_rev_encoding[OF e])
  finally show ?case .
qed

lemma TrimSpace_core:
  assumes es: "set es \<subseteq> set space_encodings"
    and fs: "set fs \<subseteq> set space_encodings"
    and np: "\<forall>e \<in> set space_encodings. \<not> prefix e core"
    and ns: "\<forall>e \<in> set space_encodings. \<not> suffix e core"
  shows "TrimSpace (concat es @ core @ concat fs) = core"
proof (cases "core = []")
  case True
  have "set (es @ fs) \<subseteq> set space_encodings" using es fs by simp
  from TrimSpace_whitespace[OF this] True show ?thesis by simp
next
  case False
  have l: "strip_prefixes space_encodings (concat es @ core @ concat fs) = core @ concat fs"
    using strip_none[OF no_prefix_append[OF False np fs]]
    by (simp add: strip_concat_append[OF es])
  have "\<forall>e \<in> set (map rev space_encodings). \<not> prefix e (rev core)"
    using ns by (auto simp: suffix_to_prefix)
  from strip_none[OF this]
  have "strip_prefixes (map rev space_encodings) (rev (core @ concat fs)) = rev core"
    by (simp add: strip_rev_concat_append[OF fs])
  then show ?thesis
    by (simp only: TrimSpace_def l rev_rev_ident)
qed

section \<open>The claims\<close>

subsection \<open>C1: rapid changes are coalesced into one apply\<close>

text \<open>
  C1. Take a non-empty sequence of parameter changes, each less than the debounce interval
  (250 ms) after the one before, made in a state with no pending timer and with the
  suppression flag clear. Once the debounce interval has passed after the last change,
  exactly one new invocation has been started; it is an apply, it starts \<open>debounce\<close>
  after the last change, and it carries the temperature (truncated to an integer), the
  brightness and the gamma that the sliders hold after the last change. No timer is left
  pending.
\<close>

theorem debounce_single_apply:
  fixes nf :: "real \<Rightarrow> real \<Rightarrow> bool"
  assumes ne: "cs \<noteq> []"
    and close: "close_together (map fst cs)"
    and quiet: "\<forall>x \<in> set (timers w). \<not> active x"
    and sil: "\<not> silence (ui w)"
    and late: "fst (last cs) + debounce \<le> T"
  shows "map kind (procs (advance T (run nf (map change_event cs) w)))
           = map kind (procs w)
             @ [ApplyCmd (go_int (tempK (sliders_after cs (ui w))))
                         (brightness (sliders_after cs (ui w)))
                         (gamma (sliders_after cs (ui w)))]
         \<and> started (last (procs (advance T (run nf (map change_event cs) w))))
             = fst (last cs) + debounce
         \<and> (\<forall>x \<in> set (timers (advance T (run nf (map change_event cs) w))). \<not> active x)"
proof -
  define w1 where "w1 = run nf (map change_event cs) w"
  from quiet have inv: "slot_holds_pending w"
    by (simp add: slot_holds_pending_def)
  from quiet have nodue: "\<forall>x \<in> set (timers w). \<not> due (fst (hd cs)) x"
    by (simp add: due_def)
  from run_changes[OF ne close inv nodue sil, of nf]
  have pl: "pending_last (fst (last cs)) w1"
    and kinds: "map kind (procs w1) = map kind (procs w)"
    and snap: "snapshot (ui w1) = snapshot (sliders_after cs (ui w))"
    by (simp_all add: w1_def)
  note f = pending_last_fires[OF pl late]
  have "map kind (procs (advance T w1))
          = map kind (procs w)
            @ [ApplyCmd (go_int (tempK (sliders_after cs (ui w))))
                        (brightness (sliders_after cs (ui w)))
                        (gamma (sliders_after cs (ui w)))]"
    using f(1) kinds snap by (simp add: snapshot_def)
  with f(2) f(3) show ?thesis
    unfolding w1_def by simp
qed

theorem debounce_single_apply_witness:
  "close_together [0, 100 * millisecond, 200 * millisecond]
   \<and> map kind (procs (advance (450 * millisecond)
        (run toolkit_notifies
           (map change_event
              [(0, STemp, 5000), (100 * millisecond, SBrightness, 0.5),
               (200 * millisecond, STemp, 5200)])
           ready_world)))
       = [ApplyCmd 5200 0.5 1]
   \<and> started (last (procs (advance (450 * millisecond)
        (run toolkit_notifies
           (map change_event
              [(0, STemp, 5000), (100 * millisecond, SBrightness, 0.5),
               (200 * millisecond, STemp, 5200)])
           ready_world))))
       = 450 * millisecond"
  using debounce_single_apply
    [of "[(0, STemp, 5000), (100 * millisecond, SBrightness, 0.5),
          (200 * millisecond, STemp, 5200)]"
        ready_world "450 * millisecond" toolkit_notifies]
  by (simp add: ready_world_def main_init_def debounce_def millisecond_def go_int_def)

subsection \<open>C2: the classification of an apply's outcome\<close>

text \<open>
  C2, as stated, fails. The claim gives \<open>Timed out applying settings\<close> and \<open>Applied\<close> as
  the exact texts; the program's texts end with a full stop.
\<close>

theorem apply_exact_texts_counterexample:
  "apply_msg [] (Some ''signal: killed'') DeadlineExceeded \<noteq> ''Timed out applying settings''
   \<and> apply_msg [] None NoErr \<noteq> ''Applied''"
  by (simp add: apply_msg_def TrimSpace_Nil)

text \<open>
  C2, amended. For every completed apply the status message is, in this order of
  priority: (a) deadline exceeded: \<open>Timed out applying settings.\<close>; (b) the command failed
  and its trimmed output is empty: \<open>redshift error: \<close> followed by the description of the
  failure; (c) the command failed with output: \<open>redshift error: \<close> followed by the trimmed
  output; (d) the command succeeded with empty trimmed output: \<open>Applied.\<close>; (e) the
  command succeeded with output: the trimmed output.
\<close>

theorem apply_classification:
  "(cerr = DeadlineExceeded \<longrightarrow> apply_msg ob err cerr = ''Timed out applying settings.'')
   \<and> (cerr \<noteq> DeadlineExceeded \<and> err = Some d \<and> TrimSpace ob = [] \<longrightarrow>
        apply_msg ob err cerr = ''redshift error: '' @ d)
   \<and> (cerr \<noteq> DeadlineExceeded \<and> err = Some d \<and> TrimSpace ob \<noteq> [] \<longrightarrow>
        apply_msg ob err cerr = ''redshift error: '' @ TrimSpace ob)
   \<and> (cerr \<noteq> DeadlineExceeded \<and> err = None \<and> TrimSpace ob = [] \<longrightarrow>
        apply_msg ob err cerr = ''Applied.'')
   \<and> (cerr \<noteq> DeadlineExceeded \<and> err = None \<and> TrimSpace ob \<noteq> [] \<longrightarrow>
        apply_msg ob err cerr = TrimSpace ob)"
  by (simp add: apply_msg_def Let_def)

theorem apply_classification_witness:
  "apply_msg ''Trying\<newline>'' (Some ''signal: killed'') DeadlineExceeded
     = ''Timed out applying settings.''
   \<and> apply_msg '' \<newline>'' (Some ''exit status 1'') NoErr = ''redshift error: exit status 1''
   \<and> apply_msg ''bad option\<newline>'' (Some ''exit status 1'') Canceled
       = ''redshift error: bad option''
   \<and> apply_msg [] None NoErr = ''Applied.''
   \<and> apply_msg '' ok\<newline>'' None NoErr = ''ok''"
  using apply_classification
      [where cerr = DeadlineExceeded and ob = "''Trying\<newline>''"
         and err = "Some ''signal: killed''" and d = "''signal: killed''"]
    apply_classification
      [where cerr = NoErr and ob = "'' \<newline>''" and err = "Some ''exit status 1''"
         and d = "''exit status 1''"]
    apply_classification
      [where cerr = Canceled and ob = "''bad option\<newline>''"
         and err = "Some ''exit status 1''" and d = "''exit status 1''"]
    apply_classification [where cerr = NoErr and ob = "[]" and err = None and d = "[]"]
    apply_classification
      [where cerr = NoErr and ob = "'' ok\<newline>''" and err = None and d = "[]"]
  by (simp add: TrimSpace_def space_encodings_def)

subsection \<open>C3: invocations in flight\<close>

text \<open>
  C3. The claim says that at most one invocation is in flight and that a new one cancels
  the one before. \<open>scheduleApply\<close> calls the stored \<open>CancelFunc\<close>; \<open>reset\<close> (and \<open>apply\<close>)
  overwrite \<open>u.cancel\<close> without calling it. The temperature slider is moved at time 0, the
  apply starts at 250 ms, the reset button is clicked at 300 ms: both commands are in
  flight, neither context is cancelled, and the \<open>CancelFunc\<close> of the apply is lost.
\<close>

theorem reset_runs_beside_apply:
  "map kind (in_flight (run toolkit_notifies
      [(0, Slide STemp 5000), (300 * millisecond, ClickReset)] ready_world))
     = [ApplyCmd 5000 1 1, ResetCmd]
   \<and> map ctxErr (in_flight (run toolkit_notifies
      [(0, Slide STemp 5000), (300 * millisecond, ClickReset)] ready_world))
     = [NoErr, NoErr]
   \<and> cancel (ui (run toolkit_notifies
      [(0, Slide STemp 5000), (300 * millisecond, ClickReset)] ready_world)) = Some 1"
  by (simp add: run_defs)

subsection \<open>C4: the result of a superseded apply\<close>

text \<open>
  C4, as stated, fails. The slider is moved at time 0, the apply starts at 250 ms, the
  slider is moved again at 300 ms, which cancels the context of the running apply; the
  killed command returns at 310 ms with no output and the error \<open>signal: killed\<close>. The
  status text, \<open>Ready.\<close> until then, becomes \<open>redshift error: signal: killed\<close>.
\<close>

theorem superseded_result_counterexample:
  "ctxErr (procs (run toolkit_notifies
      [(0, Slide STemp 5000), (300 * millisecond, Slide STemp 5100)] ready_world) ! 0)
     = Canceled
   \<and> out (ui (run toolkit_notifies
      [(0, Slide STemp 5000), (300 * millisecond, Slide STemp 5100)] ready_world))
     = ''Ready.''
   \<and> out (ui (run toolkit_notifies
      [(0, Slide STemp 5000), (300 * millisecond, Slide STemp 5100),
       (310 * millisecond, Returns 0 [] (Some ''signal: killed''))] ready_world))
     = ''redshift error: signal: killed''"
  by (simp add: run_defs)

text \<open>
  C4, amended. When a running apply, whose deadline has not passed, is cancelled because
  a newer parameter change superseded it, its result is not discarded: when the command
  returns, the outcome is classified like that of any apply that did not exceed its
  deadline and is written to the status text: \<open>redshift error: \<close> followed by the trimmed
  output, or by the description of the failure when there is no output, if the command
  failed; \<open>Applied.\<close> or the trimmed output if it succeeded. It is not reported as a
  timeout.
\<close>

theorem superseded_apply_published:
  fixes nf :: "real \<Rightarrow> real \<Rightarrow> bool"
  assumes i: "i < length (procs w)"
    and k: "kind (procs w ! i) = ApplyCmd t b g"
    and r: "running (procs w ! i)"
    and c: "ctxErr (procs w ! i) = NoErr"
    and slot: "cancel (ui w) = Some i"
    and sil: "\<not> silence (ui w)"
    and quiet: "\<forall>x \<in> set (timers w). \<not> active x"
    and t1: "t1 < started (procs w ! i) + timeout"
  shows "ctxErr (procs (step nf (Slide s v) (advance t1 w)) ! i) = Canceled
     \<and> out (ui (step nf (Returns i ob err) (advance t2 (step nf (Slide s v) (advance t1 w)))))
         = (case err of
              Some d \<Rightarrow> ''redshift error: '' @ (if TrimSpace ob = [] then d else TrimSpace ob)
            | None \<Rightarrow> if TrimSpace ob = [] then ''Applied.'' else TrimSpace ob)"
proof -
  define w1 where "w1 = step nf (Slide s v) (advance t1 w)"
  from quiet have nodue: "\<forall>x \<in> set (timers w). \<not> due t1 x" by (simp add: due_def)
  have e: "expire t1 (procs w ! i) = procs w ! i"
    using t1 by (simp add: expire_def)
  have p1: "procs w1 = cancel_ctx i (map (expire t1) (procs w))"
    using sil slot
    by (simp add: w1_def advance_nothing_due[OF nodue] user_change_def onChange_def
        silence_set_value scheduleApply_def Let_def cancel_set_value)
  have n1: "procs w1 ! i = (procs w ! i)\<lparr>ctxErr := Canceled\<rparr>"
    using i c e by (simp add: p1 cancel_ctx_def)
  have i1: "i < length (procs w1)" using i by (simp add: p1)
  have k1: "kind (procs w1 ! i) = ApplyCmd t b g" using k by (simp add: n1)
  have r1: "running (procs w1 ! i)" using r by (simp add: n1)
  have x1: "ctxErr (expire t2 (procs w1 ! i)) = Canceled"
    by (simp add: n1 expire_def)
  have "out (ui (step nf (Returns i ob err) (advance t2 w1))) = apply_msg ob err Canceled"
    using out_advance_returns_apply[OF i1 k1 r1, of nf ob err t2] x1 by simp
  moreover have "ctxErr (procs w1 ! i) = Canceled" by (simp add: n1)
  ultimately show ?thesis
    unfolding w1_def by (simp add: apply_msg_def Let_def split: option.splits)
qed

theorem superseded_apply_published_witness:
  "kind (procs applying_world ! 0) = ApplyCmd 5000 1 1
   \<and> running (procs applying_world ! 0)
   \<and> cancel (ui applying_world) = Some 0
   \<and> ctxErr (procs (step toolkit_notifies (Slide STemp 5100)
        (advance (300 * millisecond) applying_world)) ! 0) = Canceled
   \<and> out (ui (step toolkit_notifies (Returns 0 [] (Some ''signal: killed''))
        (advance (310 * millisecond)
           (step toolkit_notifies (Slide STemp 5100)
              (advance (300 * millisecond) applying_world)))))
       = ''redshift error: signal: killed''"
proof -
  have h: "0 < length (procs applying_world)"
    "kind (procs applying_world ! 0) = ApplyCmd 5000 1 1"
    "running (procs applying_world ! 0)"
    "ctxErr (procs applying_world ! 0) = NoErr"
    "cancel (ui applying_world) = Some 0"
    "\<not> silence (ui applying_world)"
    "\<forall>x \<in> set (timers applying_world). \<not> active x"
    "300 * millisecond < started (procs applying_world ! 0) + timeout"
    by (simp_all add: applying_world_eq timeout_def second_def millisecond_def)
  from superseded_apply_published
    [where nf = toolkit_notifies and s = STemp and v = 5100 and ob = "[]"
       and err = "Some ''signal: killed''" and ?t2.0 = "310 * millisecond", OF h] h
  show ?thesis by (simp add: TrimSpace_Nil)
qed

subsection \<open>C5: suppression\<close>

text \<open>
  C5. While the suppression flag is set, the change handler returns at once and changes
  nothing, so a programmatic write only stores the value. \<open>reset\<close> sets the flag before
  its three writes and clears it after them: whatever notifications the toolkit sends for
  these writes, the restoration has the effect it has when the toolkit sends none, and
  the completion of a reset makes no timer, stops none, and starts no invocation.
\<close>

theorem suppression_blocks_scheduling:
  "(silence (ui w) \<longrightarrow>
      onChange w = w \<and> SetValue nf s v w = w\<lparr>ui := set_value s v (ui w)\<rparr>)
   \<and> reset_restore nf msg w = reset_restore (\<lambda>old new. False) msg w
   \<and> timers (reset_finish nf i ob err w) = timers w
   \<and> timer (ui (reset_finish nf i ob err w)) = timer (ui w)
   \<and> cancel (ui (reset_finish nf i ob err w)) = cancel (ui w)
   \<and> map kind (procs (reset_finish nf i ob err w)) = map kind (procs w)"
  by (simp add: onChange_silent SetValue_silent reset_restore_eq reset_finish_def Let_def
      kind_finished)

theorem suppression_blocks_scheduling_witness:
  "silence (ui (ready_world\<lparr>ui := (ui ready_world)\<lparr>silence := True\<rparr>\<rparr>))
   \<and> timers (SetValue (\<lambda>old new. True) STemp 4000
        (ready_world\<lparr>ui := (ui ready_world)\<lparr>silence := True\<rparr>\<rparr>)) = []
   \<and> tempK (ui (SetValue (\<lambda>old new. True) STemp 4000
        (ready_world\<lparr>ui := (ui ready_world)\<lparr>silence := True\<rparr>\<rparr>))) = 4000
   \<and> timers (reset_finish (\<lambda>old new. True) 0 [] None
        (step toolkit_notifies ClickReset ready_world)) = []"
  using suppression_blocks_scheduling
    [where w = "ready_world\<lparr>ui := (ui ready_world)\<lparr>silence := True\<rparr>\<rparr>"
       and nf = "\<lambda>old new. True" and s = STemp and v = 4000]
    suppression_blocks_scheduling
    [where w = "step toolkit_notifies ClickReset ready_world"
       and nf = "\<lambda>old new. True" and i = 0 and ob = "[]" and err = None]
  by (simp add: ready_world_def main_init_def start_cmd_def)

subsection \<open>C6: reset restores the defaults\<close>



subsection \<open>C7: a reset that exceeds its deadline\<close>

text \<open>
  C7. \<open>reset\<close> runs \<open>redshift -x\<close> under the deadline of 3 seconds, as \<open>apply\<close> runs its
  command, but, unlike \<open>apply\<close>, it never compares \<open>ctx.Err()\<close> with
  \<open>context.DeadlineExceeded\<close>. The button is clicked at time 0; the command is killed at
  the deadline and returns, with no output, the error \<open>signal: killed\<close>. The status text is
  that of an ordinary failure, where \<open>apply\<close> reports the timeout.
\<close>

theorem reset_timeout_reported_as_failure:
  "command_line ResetCmd = (''redshift'', [''-x''])
   \<and> ctxErr (procs (advance (3 * second + 1)
        (run toolkit_notifies [(0, ClickReset)] ready_world)) ! 0) = DeadlineExceeded
   \<and> out (ui (run toolkit_notifies
        [(0, ClickReset), (3 * second + 1, Returns 0 [] (Some ''signal: killed''))]
        ready_world)) = ''reset error: signal: killed''
   \<and> apply_msg [] (Some ''signal: killed'') DeadlineExceeded = ''Timed out applying settings.''"
  by (simp add: run_defs)

subsection \<open>C8: the argument list of an apply\<close>

text \<open>
  C8. For every \<open>apply(t, b, g)\<close> the tool \<open>redshift\<close> is invoked with the nine arguments
  \<open>-m\<close>, \<open>randr\<close>, \<open>-P\<close>, \<open>-O\<close>, the temperature, \<open>-g\<close>, the gamma three times joined by
  colons, \<open>-b\<close>, the brightness, in this order. The temperature argument is a decimal
  integer (digits, after a minus sign if any) that reads back as \<open>t\<close>. The gamma and the
  brightness are each printed with an integer part, a point and exactly two decimal
  digits, and read back to within half a hundredth of the value. Joined by blanks, name
  and arguments are the spec's template of the invocation.
\<close>

theorem apply_argument_list:
  "apply_args t b g =
     [''-m'', ''randr'', ''-P'', ''-O'', fmt_d t,
      ''-g'', fmt_2f g @ '':'' @ fmt_2f g @ '':'' @ fmt_2f g, ''-b'', fmt_2f b]
   \<and> is_decimal_int (apply_args t b g ! 4)
   \<and> read_int (apply_args t b g ! 4) = t
   \<and> has_two_decimals (fmt_2f g)
   \<and> \<bar>read_decimal (fmt_2f g) - g\<bar> \<le> 1 / 200
   \<and> has_two_decimals (apply_args t b g ! 8)
   \<and> \<bar>read_decimal (apply_args t b g ! 8) - b\<bar> \<le> 1 / 200
   \<and> unwords (fst (command_line (ApplyCmd t b g)) # snd (command_line (ApplyCmd t b g)))
       = spec_apply_line ''redshift'' t b g"
  using read_fmt_2f_close [of g] read_fmt_2f_close [of b]
  by (simp add: apply_args_def spec_apply_line_def is_decimal_int_fmt_d read_int_fmt_d
      fmt_2f_shape(1))

theorem apply_argument_list_witness:
  "apply_args 6500 0.75 1.5 =
     [''-m'', ''randr'', ''-P'', ''-O'', ''6500'', ''-g'', ''1.50:1.50:1.50'', ''-b'', ''0.75'']"
proof -
  note a = apply_argument_list [where t = 6500 and b = "0.75" and g = "1.5", THEN conjunct1]
  have "fmt_d 6500 = ''6500''"
    by (simp add: fmt_d_def fmt_nat.simps)
  moreover have "fmt_2f 0.75 = ''0.75''" and "fmt_2f 1.5 = ''1.50''"
    by (simp_all add: fmt_2f_def round_half_even_def Let_def fmt_nat.simps)
  ultimately show ?thesis
    using a by simp
qed

subsection \<open>C9: the tool is not installed\<close>

text \<open>
  C9. If \<open>redshift\<close> does not resolve on the search path at start-up, the status text is the
  fixed not-found message before any event, and the start-up check has started no
  invocation and no timer.
\<close>

theorem startup_tool_not_found:
  "\<not> resolves ''redshift'' \<Longrightarrow>
     out (ui (main_init resolves))
       = ''Error: 'redshift' not found in PATH. Install it (e.g., sudo apt install redshift).''
     \<and> procs (main_init resolves) = []
     \<and> timers (main_init resolves) = []"
  by (simp add: main_init_def not_found_msg_def)

theorem startup_tool_not_found_witness:
  "out (ui (main_init (\<lambda>name. name = ''xrandr'')))
       = ''Error: 'redshift' not found in PATH. Install it (e.g., sudo apt install redshift).''
   \<and> in_flight (main_init (\<lambda>name. name = ''xrandr'')) = []"
  using startup_tool_not_found [where resolves = "\<lambda>name. name = ''xrandr''"]
  by (simp add: in_flight_def)

subsection \<open>C10: white space around the output\<close>

text \<open>
  C10. In \<open>apply\<close> and in \<open>reset\<close> the combined output is trimmed before the outcome is
  classified. Trimming removes the white space before and after the text and nothing
  else: of white space, a text that neither starts nor ends with white space, and white
  space again, the text is left, white space inside it included. So the message depends on
  the output through its trimmed text only, and an output made of white space only is
  treated as no output: on success the message is the fixed \<open>Applied.\<close> or
  \<open>Reset to defaults.\<close>, on failure it is the prefix followed by the description of the
  failure, where an output with text gives that text.
\<close>

theorem whitespace_output_is_no_output:
  assumes es: "set es \<subseteq> set space_encodings"
    and fs: "set fs \<subseteq> set space_encodings"
    and np: "\<forall>e \<in> set space_encodings. \<not> prefix e core"
    and ns: "\<forall>e \<in> set space_encodings. \<not> suffix e core"
  shows "apply_msg (concat es) err cerr = apply_msg [] err cerr
     \<and> reset_msg (concat es) err = reset_msg [] err
     \<and> apply_msg (concat es) None NoErr = ''Applied.''
     \<and> apply_msg (concat es) (Some d) NoErr = ''redshift error: '' @ d
     \<and> reset_msg (concat es) None = ''Reset to defaults.''
     \<and> reset_msg (concat es) (Some d) = ''reset error: '' @ d
     \<and> (TrimSpace ob = TrimSpace ob' \<longrightarrow>
          apply_msg ob err cerr = apply_msg ob' err cerr \<and> reset_msg ob err = reset_msg ob' err)
     \<and> TrimSpace (concat es @ core @ concat fs) = core
     \<and> (core \<noteq> [] \<longrightarrow>
          apply_msg (concat es @ core @ concat fs) None NoErr = core
          \<and> apply_msg (concat es @ core @ concat fs) (Some d) NoErr = ''redshift error: '' @ core
          \<and> reset_msg (concat es @ core @ concat fs) (Some d) = ''reset error: '' @ core)"
  using TrimSpace_whitespace [OF es] TrimSpace_core [OF es fs np ns]
  by (simp add: apply_msg_def reset_msg_def TrimSpace_Nil Let_def)

theorem whitespace_output_is_no_output_witness:
  "apply_msg '' \<newline>'' None NoErr = ''Applied.''
   \<and> apply_msg [CHR 0x09, CHR 0xC2, CHR 0xA0, CHR 0x0D, CHR 0x0A] (Some ''exit status 1'') NoErr
       = ''redshift error: exit status 1''
   \<and> reset_msg [CHR 0xE2, CHR 0x80, CHR 0xA8] (Some ''exit status 1'')
       = ''reset error: exit status 1''
   \<and> TrimSpace '' \<newline>Using method `randr'.\<newline>'' = ''Using method `randr'.''
   \<and> apply_msg '' \<newline>Using method `randr'.\<newline>'' None NoErr = ''Using method `randr'.''
   \<and> reset_msg ''  no display \<newline>'' (Some ''exit status 1'') = ''reset error: no display''"
proof -
  have h1: "set ['' '', ''\<newline>''] \<subseteq> set space_encodings"
    and h2: "set [[CHR 0x09], [CHR 0xC2, CHR 0xA0], [CHR 0x0D], [CHR 0x0A]]
               \<subseteq> set space_encodings"
    and h3: "set [[CHR 0xE2, CHR 0x80, CHR 0xA8]] \<subseteq> set space_encodings"
    and h4: "set [''\<newline>''] \<subseteq> set space_encodings"
    and h5: "set ['' '', '' ''] \<subseteq> set space_encodings"
    by (simp_all add: space_encodings_def)
  have p1: "\<forall>e \<in> set space_encodings. \<not> prefix e ''Using method `randr'.''"
    and s1: "\<forall>e \<in> set space_encodings. \<not> suffix e ''Using method `randr'.''"
    and p2: "\<forall>e \<in> set space_encodings. \<not> prefix e ''no display''"
    and s2: "\<forall>e \<in> set space_encodings. \<not> suffix e ''no display''"
    and p0: "\<forall>e \<in> set space_encodings. \<not> prefix e []"
    and s0: "\<forall>e \<in> set space_encodings. \<not> suffix e []"
    by (simp_all add: space_encodings_def suffix_to_prefix)
  note a = whitespace_output_is_no_output
      [OF h1 h4 p1 s1, where d = "''exit status 1''" and err = None and cerr = NoErr
         and ob = "[]" and ob' = "[]", simplified]
  note b = whitespace_output_is_no_output
      [OF h2 h4 p0 s0, where d = "''exit status 1''" and err = None and cerr = NoErr
         and ob = "[]" and ob' = "[]", simplified]
  note c = whitespace_output_is_no_output
      [OF h3 h4 p0 s0, where d = "''exit status 1''" and err = None and cerr = NoErr
         and ob = "[]" and ob' = "[]", simplified]
  note d = whitespace_output_is_no_output
      [OF h5 h1 p2 s2, where d = "''exit status 1''" and err = None and cerr = NoErr
         and ob = "[]" and ob' = "[]", simplified]
  from a b c d show ?thesis by blast
qed

end
